theory Spec2Isabelle
  imports Complex_Main "HOL-Library.Log_Nat"
begin

section \<open>Python values\<close>

text \<open>
  The notebooks are Python. An exception is a value with a class name and a message;
  \<open>str(e)\<close> of an exception built from one message is that message. A call that may
  raise returns \<open>py_exception + 'a\<close>, with \<open>Inl\<close> for the raised exception.
\<close>

datatype py_exception = PyExc (exc_class: string) (exc_message: string)

definition str_exc :: "py_exception \<Rightarrow> string" where
  "str_exc e = exc_message e"

text \<open>
  \<open>except Exception\<close> catches every exception but the three built-in classes that
  derive from \<open>BaseException\<close> directly; a bare \<open>except:\<close> catches those too.
\<close>

definition is_Exception :: "py_exception \<Rightarrow> bool" where
  "is_Exception e =
     (exc_class e \<noteq> ''KeyboardInterrupt'' \<and> exc_class e \<noteq> ''SystemExit''
      \<and> exc_class e \<noteq> ''GeneratorExit'')"

text \<open>
  What a tool's \<open>_run\<close> hands back is a Python object: a \<open>str\<close>, or (as the code
  is written) the exception object it caught.
\<close>

datatype py_object = PyStr string | PyExcObj py_exception

definition is_text :: "py_object \<Rightarrow> bool" where
  "is_text v = (case v of PyStr s \<Rightarrow> True | PyExcObj e \<Rightarrow> False)"

subsection \<open>\<open>str\<close> of an integer\<close>

definition digit_char :: "nat \<Rightarrow> char" where
  "digit_char d = ''0123456789'' ! d"

function str_digits :: "int \<Rightarrow> string" where
  "str_digits n =
     (if n < 10 then [digit_char (nat n)]
      else str_digits (n div 10) @ [digit_char (nat (n mod 10))])"
  by pat_completeness auto
termination
  by (relation "measure nat") auto

definition str_int :: "int \<Rightarrow> string" where
  "str_int i = (if i < 0 then CHR ''-'' # str_digits (- i) else str_digits i)"

subsection \<open>Python floats\<close>

text \<open>
  A Python \<open>float\<close> is an IEEE 754 double. A finite double is written here as a
  mantissa and an exponent, \<open>Dbl m e\<close> standing for \<open>m * 2 ^ e\<close>, with \<open>\<bar>m\<bar> \<le> 2 ^ 53\<close>.
  \<open>round_to_double n e\<close> is the double nearest to \<open>n * 2 ^ e\<close>, ties to the even
  mantissa: the rounding of every float operation and of \<open>int\<close> to \<open>float\<close>
  conversion. The exponent range is not part of the model, except for the overflow of
  the conversion: the one product this program computes is \<open>0.9 * x\<close> for an integral
  \<open>x\<close>, which is zero or lies between \<open>0.9\<close> and \<open>x\<close> in magnitude.
\<close>

datatype double = Dbl (mant: int) (expo: int)

definition round_to_double :: "int \<Rightarrow> int \<Rightarrow> double" where
  "round_to_double n e =
     (let a = \<bar>n\<bar>; k = bitlen a in
      if k \<le> 53 then Dbl n e
      else
        let s = nat (k - 53);
            q = a div 2 ^ s;
            r = a mod 2 ^ s;
            q' = (if 2 * r > 2 ^ s \<or> (2 * r = 2 ^ s \<and> odd q) then q + 1 else q)
        in Dbl (sgn n * q') (e + int s))"

text \<open>
  \<open>float(i)\<close>, as the mixed product \<open>0.9 * i\<close> converts its integer operand:
  correctly rounded, and \<open>OverflowError\<close> when the rounded magnitude reaches \<open>2 ^ 1024\<close>.
\<close>

definition float_of_int :: "int \<Rightarrow> py_exception + double" where
  "float_of_int i =
     (let d = round_to_double i 0 in
      if bitlen \<bar>mant d\<bar> + expo d > 1024
      then Inl (PyExc ''OverflowError'' ''int too large to convert to float'')
      else Inr d)"

definition float_mul :: "double \<Rightarrow> double \<Rightarrow> double" where
  "float_mul x y = round_to_double (mant x * mant y) (expo x + expo y)"

text \<open>The literal \<open>0.9\<close>: the double nearest to nine tenths, \<open>8106479329266893 / 2 ^ 53\<close>.\<close>

definition float_0_9 :: double where
  "float_0_9 = Dbl 8106479329266893 (- 53)"

text \<open>The number a double stands for.\<close>

definition real_of_double :: "double \<Rightarrow> real" where
  "real_of_double d = real_of_int (mant d) * 2 powr real_of_int (expo d)"

text \<open>\<open>i > d\<close> for an \<open>int\<close> and a \<open>float\<close>: Python compares the two exactly.\<close>

definition int_gt_float :: "int \<Rightarrow> double \<Rightarrow> bool" where
  "int_gt_float i d =
     (if 0 \<le> expo d then i > mant d * 2 ^ nat (expo d)
      else i * 2 ^ nat (- expo d) > mant d)"

section \<open>Notebook 04: token counting and the choice of the chain type\<close>

text \<open>
  The cell
  \<^verbatim>\<open>
  if(len(top_docs)>0):
      tokens_limit = model_tokens_limit(MODEL)
      prompt_tokens = num_tokens_from_string(COMBINE_PROMPT_TEMPLATE)
      context_tokens = num_tokens_from_docs(top_docs)
      requested_tokens = prompt_tokens + context_tokens + COMPLETION_TOKENS
      chain_type = "map_reduce" if requested_tokens > 0.9 * tokens_limit else "stuff"
      print("System prompt token count:",prompt_tokens)
      print("Max Completion Token count:", COMPLETION_TOKENS)
      print("Combined docs (context) token count:",context_tokens)
      print("--------")
      print("Requested token count:",requested_tokens)
      print("Token limit for", MODEL, ":", tokens_limit)
      print("Chain Type selected:", chain_type)
  else:
      print("NO RESULTS FROM AZURE SEARCH")
  \<close>
  The three counting functions live in \<open>common/utils.py\<close>; they are parameters here.
  The cell's result is the variables it binds (\<open>None\<close> for a variable left unbound)
  and the lines it prints, or the \<open>OverflowError\<close> of a limit too large for a float.
  \<open>select_chain\<close> is the line that binds \<open>chain_type\<close>.
\<close>

text \<open>
  The documents come from the cell before:
  \<^verbatim>\<open>
  top_docs = []
  for key,value in ordered_results.items():
      location = value["location"] if value["location"] is not None else ""
      top_docs.append(Document(page_content=value["chunk"],
                               metadata={"source": location+os.environ['BLOB_SAS_TOKEN']}))
  \<close>
  one document per search result, in order.
\<close>

record search_result =
  result_chunk :: string
  result_location :: "string option"

record document =
  page_content :: string
  metadata_source :: string

definition make_top_docs :: "string \<Rightarrow> (string \<times> search_result) list \<Rightarrow> document list" where
  "make_top_docs BLOB_SAS_TOKEN ordered_results =
     map (\<lambda>(key, value).
            \<lparr>page_content = result_chunk value,
             metadata_source =
               (case result_location value of Some location \<Rightarrow> location | None \<Rightarrow> [])
               @ BLOB_SAS_TOKEN\<rparr>)
         ordered_results"

definition select_chain :: "int \<Rightarrow> int \<Rightarrow> py_exception + string" where
  "select_chain requested_tokens tokens_limit =
     (case float_of_int tokens_limit of
        Inl err \<Rightarrow> Inl err
      | Inr f \<Rightarrow>
          Inr (if int_gt_float requested_tokens (float_mul float_0_9 f)
               then ''map_reduce'' else ''stuff''))"

record token_cell =
  tokens_limit :: "int option"
  prompt_tokens :: "int option"
  context_tokens :: "int option"
  requested_tokens :: "int option"
  chain_type :: "string option"
  printed :: "string list"

definition count_tokens_cell ::
  "(string \<Rightarrow> int) \<Rightarrow> (string \<Rightarrow> int) \<Rightarrow> ('doc list \<Rightarrow> int) \<Rightarrow>
   string \<Rightarrow> string \<Rightarrow> int \<Rightarrow> 'doc list \<Rightarrow> py_exception + token_cell" where
  "count_tokens_cell model_tokens_limit num_tokens_from_string num_tokens_from_docs
       MODEL COMBINE_PROMPT_TEMPLATE COMPLETION_TOKENS top_docs =
     (if length top_docs > 0 then
        let limit = model_tokens_limit MODEL;
            prompt = num_tokens_from_string COMBINE_PROMPT_TEMPLATE;
            context = num_tokens_from_docs top_docs;
            requested = prompt + context + COMPLETION_TOKENS
        in case select_chain requested limit of
             Inl err \<Rightarrow> Inl err
           | Inr chain \<Rightarrow>
               Inr \<lparr>tokens_limit = Some limit, prompt_tokens = Some prompt,
                    context_tokens = Some context, requested_tokens = Some requested,
                    chain_type = Some chain,
                    printed =
                      [''System prompt token count: '' @ str_int prompt,
                       ''Max Completion Token count: '' @ str_int COMPLETION_TOKENS,
                       ''Combined docs (context) token count: '' @ str_int context,
                       ''--------'',
                       ''Requested token count: '' @ str_int requested,
                       ''Token limit for '' @ MODEL @ '' : '' @ str_int limit,
                       ''Chain Type selected: '' @ chain]\<rparr>
      else
        Inr \<lparr>tokens_limit = None, prompt_tokens = None, context_tokens = None,
             requested_tokens = None, chain_type = None,
             printed = [''NO RESULTS FROM AZURE SEARCH'']\<rparr>)"

section \<open>Notebook 04: uploading the pages and their vectors\<close>

text \<open>
  The upload loop
  \<^verbatim>\<open>
  for bookname,bookmap in book_pages_map.items():
      print("Uploading chunks from",bookname)
      for page in tqdm(bookmap):
          try:
              page_num = page[0] + 1
              content = page[2]
              book_url = BASE_CONTAINER_URL + bookname
              upload_payload = {"value": [{
                  "id": text_to_base64(bookname + str(page_num)),
                  "title": f"{bookname}_page_{str(page_num)}",
                  "chunk": content,
                  "chunkVector": embedder.embed_query(content if content!="" else "-------"),
                  "name": bookname, "location": book_url, "page_num": page_num,
                  "@search.action": "upload"},]}
              r = requests.post(..., data=json.dumps(upload_payload), ...)
              if r.status_code != 200:
                  print(r.status_code)
                  print(r.text)
          except Exception as e:
              print("Exception:",e)
              print(content)
              continue
  \<close>
  A parsed page is the triple \<open>(page index, offset, text)\<close> that \<open>parse_pdf\<close>
  returns. The document of a payload is a record whose fields are the keys of the
  dictionary. The embedding service, the index service and \<open>text_to_base64\<close> are
  outside the notebook: they are the fields of \<open>upload_env\<close>. The state is the list of
  documents handed to \<open>requests.post\<close> and the lines printed.
\<close>

type_synonym page = "int \<times> int \<times> string"

record 'v upload_document =
  doc_id :: string
  doc_title :: string
  doc_chunk :: string
  doc_chunkVector :: 'v
  doc_name :: string
  doc_location :: string
  doc_page_num :: int
  doc_search_action :: string

record 'v upload_env =
  BASE_CONTAINER_URL :: string
  text_to_base64 :: "string \<Rightarrow> string"
  embed_query :: "string \<Rightarrow> py_exception + 'v"
  requests_post :: "'v upload_document \<Rightarrow> py_exception + int \<times> string"

record 'v upload_state =
  posted :: "'v upload_document list"
  upload_out :: "string list"

text \<open>
  The \<open>except Exception\<close> clause of the loop body: it prints and goes on to the next
  page; an exception that is not an \<open>Exception\<close> leaves the loop (\<open>Some e\<close>).
\<close>

definition upload_except ::
  "py_exception \<Rightarrow> string \<Rightarrow> 'v upload_state \<Rightarrow> 'v upload_state \<times> py_exception option" where
  "upload_except e content st =
     (if is_Exception e
      then (st\<lparr>upload_out := upload_out st @ [''Exception: '' @ str_exc e, content]\<rparr>, None)
      else (st, Some e))"

definition upload_page ::
  "'v upload_env \<Rightarrow> string \<Rightarrow> page \<Rightarrow> 'v upload_state \<Rightarrow> 'v upload_state \<times> py_exception option" where
  "upload_page env bookname page st =
     (let page_num = fst page + 1;
          content = snd (snd page);
          book_url = BASE_CONTAINER_URL env @ bookname
      in case embed_query env (if content \<noteq> [] then content else ''-------'') of
           Inl e \<Rightarrow> upload_except e content st
         | Inr vector \<Rightarrow>
             let doc = \<lparr>doc_id = text_to_base64 env (bookname @ str_int page_num),
                        doc_title = bookname @ ''_page_'' @ str_int page_num,
                        doc_chunk = content,
                        doc_chunkVector = vector,
                        doc_name = bookname,
                        doc_location = book_url,
                        doc_page_num = page_num,
                        doc_search_action = ''upload''\<rparr>;
                 st1 = st\<lparr>posted := posted st @ [doc]\<rparr>
             in case requests_post env doc of
                  Inl e \<Rightarrow> upload_except e content st1
                | Inr (status_code, text) \<Rightarrow>
                    (if status_code \<noteq> 200
                     then st1\<lparr>upload_out := upload_out st1 @ [str_int status_code, text]\<rparr>
                     else st1, None))"

fun upload_pages ::
  "'v upload_env \<Rightarrow> string \<Rightarrow> page list \<Rightarrow> 'v upload_state \<Rightarrow> 'v upload_state \<times> py_exception option" where
  "upload_pages env bookname [] st = (st, None)"
| "upload_pages env bookname (page # bookmap) st =
     (case upload_page env bookname page st of
        (st', Some e) \<Rightarrow> (st', Some e)
      | (st', None) \<Rightarrow> upload_pages env bookname bookmap st')"

fun upload_books ::
  "'v upload_env \<Rightarrow> (string \<times> page list) list \<Rightarrow> 'v upload_state \<Rightarrow> 'v upload_state \<times> py_exception option" where
  "upload_books env [] st = (st, None)"
| "upload_books env ((bookname, bookmap) # book_pages_map) st =
     (case upload_pages env bookname bookmap
             (st\<lparr>upload_out := upload_out st @ [''Uploading chunks from '' @ bookname]\<rparr>) of
        (st', Some e) \<Rightarrow> (st', Some e)
      | (st', None) \<Rightarrow> upload_books env book_pages_map st')"

definition upload_cell ::
  "'v upload_env \<Rightarrow> (string \<times> page list) list \<Rightarrow> 'v upload_state \<times> py_exception option" where
  "upload_cell env book_pages_map = upload_books env book_pages_map \<lparr>posted = [], upload_out = []\<rparr>"

text \<open>
  How a posted document relates to the page it was built from: the book's name, the
  page number, the page's text as the chunk, and as the vector the embedding of that
  text, or of the placeholder when the text is empty.
\<close>

definition from_page :: "'v upload_env \<Rightarrow> string \<Rightarrow> page \<Rightarrow> 'v upload_document \<Rightarrow> bool" where
  "from_page env bookname page d \<longleftrightarrow>
     doc_name d = bookname \<and> doc_page_num d = fst page + 1 \<and> doc_chunk d = snd (snd page)
     \<and> embed_query env (if doc_chunk d = [] then ''-------'' else doc_chunk d)
         = Inr (doc_chunkVector d)"

text \<open>
  The documents one pass of the loop body hands to \<open>requests.post\<close>: the dictionary
  of \<open>upload_payload\<close> when \<open>embed_query\<close> returns, with the page's content as its
  chunk and the embedding of that content (of the placeholder when the content is empty)
  as its vector; none when \<open>embed_query\<close> raises, since the payload is then never built.
\<close>

definition page_documents :: "'v upload_env \<Rightarrow> string \<Rightarrow> page \<Rightarrow> 'v upload_document list" where
  "page_documents env bookname page =
     (case page of (i, off, content) \<Rightarrow>
        (case embed_query env (if content = [] then ''-------'' else content) of
           Inl e \<Rightarrow> []
         | Inr vector \<Rightarrow>
             [\<lparr>doc_id = text_to_base64 env (bookname @ str_int (i + 1)),
               doc_title = bookname @ ''_page_'' @ str_int (i + 1),
               doc_chunk = content,
               doc_chunkVector = vector,
               doc_name = bookname,
               doc_location = BASE_CONTAINER_URL env @ bookname,
               doc_page_num = i + 1,
               doc_search_action = ''upload''\<rparr>]))"

section \<open>Notebooks 06 and 09: the retry loops around the agent\<close>

text \<open>
  Notebook 06:
  \<^verbatim>\<open>
  for i in range(5):
      try:
          response = agent_executor.run(CSV_PROMPT_PREFIX + QUESTION + CSV_PROMPT_SUFFIX)
          break
      except:
          response = "Error too many failed retries"
          continue
  \<close>
  Notebook 09 (twice, with the two tools):
  \<^verbatim>\<open>
  for i in range(2):
      try:
          response = agent_executor.run(QUESTION)
          break
      except Exception as e:
          response = str(e)
          continue
  \<close>
  \<open>run i\<close> is what the call of \<open>agent_executor.run\<close> does in iteration \<open>i\<close>. The
  loops return the variable \<open>response\<close> (\<open>None\<close> while unbound) and the number of
  calls made. The bare \<open>except:\<close> catches everything; \<open>except Exception\<close> lets an
  exception that is not an \<open>Exception\<close> out of the cell.
\<close>

fun tabular_retry ::
  "(nat \<Rightarrow> py_exception + string) \<Rightarrow> nat list \<Rightarrow> string option \<Rightarrow> nat \<Rightarrow> string option \<times> nat" where
  "tabular_retry run [] response calls = (response, calls)"
| "tabular_retry run (i # rest) response calls =
     (case run i of
        Inr r \<Rightarrow> (Some r, calls + 1)
      | Inl e \<Rightarrow> tabular_retry run rest (Some ''Error too many failed retries'') (calls + 1))"

definition tabular_qa_cell :: "(nat \<Rightarrow> py_exception + string) \<Rightarrow> string option \<times> nat" where
  "tabular_qa_cell run = tabular_retry run [0..<5] None 0"

fun api_retry ::
  "(nat \<Rightarrow> py_exception + string) \<Rightarrow> nat list \<Rightarrow> string option \<Rightarrow> nat \<Rightarrow>
   py_exception + string option \<times> nat" where
  "api_retry run [] response calls = Inr (response, calls)"
| "api_retry run (i # rest) response calls =
     (case run i of
        Inr r \<Rightarrow> Inr (Some r, calls + 1)
      | Inl e \<Rightarrow>
          if is_Exception e then api_retry run rest (Some (str_exc e)) (calls + 1)
          else Inl e)"

definition api_search_cell ::
  "(nat \<Rightarrow> py_exception + string) \<Rightarrow> py_exception + string option \<times> nat" where
  "api_search_cell run = api_retry run [0..<2] None 0"

section \<open>Notebook 09: the two tools\<close>

text \<open>An HTTP request as the tools issue it; the log of a call lists the requests sent.\<close>

record http_request =
  req_method :: string
  req_url :: string
  req_params :: "(string \<times> string) list"

subsection \<open>The tool without an API description\<close>

text \<open>
  \<^verbatim>\<open>
  class MySimpleAPISearch(BaseTool):
      api_key: str
      def _run(self, query: str) -> str:
          params = {
            'api_key': self.api_key,
            'type': 'search',
            'ebay_domain': 'ebay.com',
            'search_term': query
          }
          api_result = requests.get('https://api.countdownapi.com/request', params)
          try:
              response = json.dumps(api_result.json())
          except Exception as e:
              response = e
          return response
  \<close>
  The network (\<open>requests.get\<close>), the decoding of the body (\<open>.json()\<close>) and \<open>json.dumps\<close>
  are parameters. The dictionary is an association list in the order it is written.
  The result is the log of requests and what \<open>_run\<close> does: it raises (\<open>Inl\<close>) or returns
  an object.
\<close>

definition simple_api_params :: "string \<Rightarrow> string \<Rightarrow> (string \<times> string) list" where
  "simple_api_params api_key query =
     [(''api_key'', api_key), (''type'', ''search''), (''ebay_domain'', ''ebay.com''),
      (''search_term'', query)]"

definition MySimpleAPISearch_run ::
  "(string \<Rightarrow> (string \<times> string) list \<Rightarrow> py_exception + 'resp) \<Rightarrow>
   ('resp \<Rightarrow> py_exception + 'json) \<Rightarrow> ('json \<Rightarrow> string) \<Rightarrow>
   string \<Rightarrow> string \<Rightarrow> http_request list \<times> (py_exception + py_object)" where
  "MySimpleAPISearch_run requests_get response_json json_dumps api_key query =
     (let params = simple_api_params api_key query;
          sent = [\<lparr>req_method = ''GET'', req_url = ''https://api.countdownapi.com/request'',
                    req_params = params\<rparr>]
      in case requests_get ''https://api.countdownapi.com/request'' params of
           Inl e \<Rightarrow> (sent, Inl e)
         | Inr api_result \<Rightarrow>
             (sent,
              case response_json api_result of
                Inl e \<Rightarrow> if is_Exception e then Inr (PyExcObj e) else Inl e
              | Inr j \<Rightarrow> Inr (PyStr (json_dumps j))))"

subsection \<open>The tool over an API description\<close>

text \<open>
  \<^verbatim>\<open>
  class MyAPISearch(BaseTool):
      llm: AzureChatOpenAI
      api_spec: str
      headers: dict = {}
      limit_to_domains: list = []
      verbose: bool = False
      def _run(self, query: str) -> str:
          chain = APIChain.from_llm_and_api_docs(
                              llm=self.llm, api_docs=self.api_spec, headers=self.headers,
                              verbose=self.verbose, limit_to_domains=self.limit_to_domains)
          try:
              sleep(2) # This is optional to avoid possible TPM rate limits
              response = chain.run(query)
          except Exception as e:
              response = e
          return response
  \<close>
  The chain is the library's: building it and running it are parameters, the run
  returning the requests it sent with its outcome. The pause has no effect on the result.
\<close>

record 'llm api_search_tool =
  tool_llm :: 'llm
  tool_api_spec :: string
  tool_headers :: "(string \<times> string) list"
  tool_limit_to_domains :: "string list"
  tool_verbose :: bool

definition MyAPISearch_run ::
  "('llm \<Rightarrow> string \<Rightarrow> (string \<times> string) list \<Rightarrow> bool \<Rightarrow> string list \<Rightarrow> py_exception + 'chain) \<Rightarrow>
   ('chain \<Rightarrow> string \<Rightarrow> http_request list \<times> (py_exception + string)) \<Rightarrow>
   'llm api_search_tool \<Rightarrow> string \<Rightarrow> http_request list \<times> (py_exception + py_object)" where
  "MyAPISearch_run from_llm_and_api_docs chain_run self query =
     (case from_llm_and_api_docs (tool_llm self) (tool_api_spec self) (tool_headers self)
             (tool_verbose self) (tool_limit_to_domains self) of
        Inl e \<Rightarrow> ([], Inl e)
      | Inr chain \<Rightarrow>
          (case chain_run chain query of
             (sent, Inl e) \<Rightarrow> (sent, if is_Exception e then Inr (PyExcObj e) else Inl e)
           | (sent, Inr response) \<Rightarrow> (sent, Inr (PyStr response))))"

subsection \<open>The chain, from the specification\<close>

text \<open>
  Modelled from the spec: \<open>APIChain\<close> is the orchestration library's class and is not
  among the sources; only its caller \<open>MyAPISearch._run\<close> is. The specification (4.3,
  spec-guided variant) says what its run does: synthesize one concrete request from the
  description and the query, reject it with DomainNotAllowed when its host is not in the
  allow-list, execute it, summarize the raw response against the query and return the
  summary. The completion model \<open>complete\<close> (which may fail) and the network \<open>execute\<close>
  are parameters; the two prompts are built by \<open>url_prompt\<close> and \<open>answer_prompt\<close>.
  The host of a URL is what stands between \<open>://\<close> and the next \<open>/\<close>.
\<close>

text \<open>Modelled from the spec: the host of a synthesized request or of an allow-list entry.\<close>

fun after_scheme :: "string \<Rightarrow> string option" where
  "after_scheme (a # b # c # rest) =
     (if [a, b, c] = ''://'' then Some rest else after_scheme (b # c # rest))"
| "after_scheme rest = None"

definition url_host :: "string \<Rightarrow> string" where
  "url_host url =
     takeWhile (\<lambda>c. c \<noteq> CHR ''/'') (case after_scheme url of None \<Rightarrow> url | Some rest \<Rightarrow> rest)"

text \<open>
  Modelled from the spec: the hosted completion model, \<open>complete(prompt) -> text\<close>,
  which may fail; and the chain object that holds it with the description, the headers
  and the allow-list.
\<close>

record completion_model =
  complete :: "string \<Rightarrow> py_exception + string"
  url_prompt :: "string \<Rightarrow> string \<Rightarrow> string"
  answer_prompt :: "string \<Rightarrow> string \<Rightarrow> string \<Rightarrow> string \<Rightarrow> string"

record api_chain =
  chain_llm :: completion_model
  chain_api_docs :: string
  chain_headers :: "(string \<times> string) list"
  chain_limit_to_domains :: "string list"

text \<open>Modelled from the spec: building the chain stores what it is given.\<close>

definition api_chain_from_llm_and_api_docs ::
  "completion_model \<Rightarrow> string \<Rightarrow> (string \<times> string) list \<Rightarrow> bool \<Rightarrow> string list \<Rightarrow>
   py_exception + api_chain" where
  "api_chain_from_llm_and_api_docs llm api_docs headers verbose limit_to_domains =
     Inr \<lparr>chain_llm = llm, chain_api_docs = api_docs, chain_headers = headers,
          chain_limit_to_domains = limit_to_domains\<rparr>"

text \<open>
  Modelled from the spec: the run of the chain. A request whose host is not in the
  allow-list fails with DomainNotAllowed before anything is sent.
\<close>

definition api_chain_run ::
  "(http_request \<Rightarrow> py_exception + string) \<Rightarrow> api_chain \<Rightarrow> string \<Rightarrow>
   http_request list \<times> (py_exception + string)" where
  "api_chain_run execute chain question =
     (let llm = chain_llm chain; docs = chain_api_docs chain
      in case complete llm (url_prompt llm docs question) of
           Inl e \<Rightarrow> ([], Inl e)
         | Inr api_url \<Rightarrow>
             if url_host api_url \<notin> set (map url_host (chain_limit_to_domains chain))
             then ([], Inl (PyExc ''DomainNotAllowed''
                             (api_url @ '' is not in the allowed domains'')))
             else
               let request = \<lparr>req_method = ''GET'', req_url = api_url, req_params = []\<rparr>
               in case execute request of
                    Inl e \<Rightarrow> ([request], Inl e)
                  | Inr api_response \<Rightarrow>
                      ([request],
                       complete llm (answer_prompt llm docs question api_url api_response)))"

text \<open>The tool of the notebook over the chain of the specification.\<close>

definition spec_guided_run ::
  "(http_request \<Rightarrow> py_exception + string) \<Rightarrow> completion_model api_search_tool \<Rightarrow> string \<Rightarrow>
   http_request list \<times> (py_exception + py_object)" where
  "spec_guided_run execute self query =
     MyAPISearch_run api_chain_from_llm_and_api_docs (api_chain_run execute) self query"

section \<open>The reducer of API descriptions, from the specification\<close>

text \<open>
  Modelled from the spec: \<open>reduce_openapi_spec\<close> is imported from \<open>common/utils.py\<close>,
  which is not among the sources; notebook 09 only calls it. The specification (3 and
  4.1) gives its contract. An API description lists operations; an operation has a
  method, a path template, an optional summary, an optional description text, an optional
  list of parameters and an optional response shape; a parameter has a name, a location,
  a required flag and a primitive type, and may carry a nested schema and an example.
  The reducer keeps method and path, takes the summary (the description text when the
  summary is absent, the empty text when both are), keeps the parameter metadata and
  strips schemas, examples and responses; absent optional fields become empty defaults.
  It fails with MalformedSpec, a textual explanation, when the input is not a mapping
  or describes no operation. A reduced description is again a description.
\<close>

datatype param_location = InPath | InQuery | InHeader | InBody

record api_parameter =
  param_name :: string
  param_location :: param_location
  param_required :: bool
  param_type :: string
  param_schema :: "string option"
  param_example :: "string option"

record api_operation =
  op_method :: string
  op_path :: string
  op_summary :: "string option"
  op_description :: "string option"
  op_parameters :: "api_parameter list option"
  op_response :: "string option"

datatype api_document = NotAMapping | Description (operations: "api_operation list option")

datatype spec_error = MalformedSpec (explanation: string)

text \<open>
  Modelled from the spec: of a parameter the reducer keeps name, location, required flag
  and primitive type, and strips the nested schema and the example.
\<close>

definition reduce_parameter :: "api_parameter \<Rightarrow> api_parameter" where
  "reduce_parameter p = p\<lparr>param_schema := None, param_example := None\<rparr>"

text \<open>
  Modelled from the spec: of an operation the reducer keeps method and path, the summary
  (the description text when the summary is absent, empty when both are) and the reduced
  parameters (none when absent), and strips the description and the response.
\<close>

definition reduce_operation :: "api_operation \<Rightarrow> api_operation" where
  "reduce_operation operation =
     \<lparr>op_method = op_method operation,
      op_path = op_path operation,
      op_summary =
        Some (case op_summary operation of
                Some s \<Rightarrow> s
              | None \<Rightarrow> (case op_description operation of Some d \<Rightarrow> d | None \<Rightarrow> [])),
      op_description = None,
      op_parameters =
        Some (map reduce_parameter
                (case op_parameters operation of Some ps \<Rightarrow> ps | None \<Rightarrow> [])),
      op_response = None\<rparr>"

text \<open>
  Modelled from the spec: the reducer; MalformedSpec when the input is not a mapping, has
  no operation collection or describes no operation.
\<close>

definition reduce_openapi_spec :: "api_document \<Rightarrow> spec_error + api_document" where
  "reduce_openapi_spec spec =
     (case spec of
        NotAMapping \<Rightarrow> Inl (MalformedSpec ''the API description is not a mapping'')
      | Description None \<Rightarrow> Inl (MalformedSpec ''the API description has no operations'')
      | Description (Some ops) \<Rightarrow>
          if ops = [] then Inl (MalformedSpec ''the API description has no operations'')
          else Inr (Description (Some (map reduce_operation ops))))"

text \<open>Reducing twice: the second reduction takes the result of the first.\<close>

definition reduce_twice :: "api_document \<Rightarrow> spec_error + api_document" where
  "reduce_twice spec =
     (case reduce_openapi_spec spec of Inl err \<Rightarrow> Inl err | Inr reduced \<Rightarrow> reduce_openapi_spec reduced)"

section \<open>Floats: rounding, and the product \<open>0.9 * tokens_limit\<close> against the exact nine tenths\<close>

text \<open>Rounding to nearest never leaves the two neighbours, and errs by half a unit at most.\<close>

lemma round_half_even_bounds:
  fixes a P :: int
  assumes P: "0 < P"
    and q': "q' = (if 2 * (a mod P) > P \<or> (2 * (a mod P) = P \<and> odd (a div P))
                   then a div P + 1 else a div P)"
  shows "a div P \<le> q'" and "2 * (q' * P - a) \<le> P" and "2 * (a - q' * P) \<le> P"
proof -
  define r where "r = a mod P"
  define d where "d = (a div P) * P"
  have split: "a = d + r"
    by (simp add: d_def r_def)
  have r: "0 \<le> r" "r < P"
    using P by (simp_all add: r_def)
  show "a div P \<le> q'"
    by (simp add: q')
  have up: "q' * P = d + P \<and> P \<le> 2 * r"
    if "2 * (a mod P) > P \<or> (2 * (a mod P) = P \<and> odd (a div P))"
    using that by (auto simp: q' d_def r_def algebra_simps)
  have down: "q' * P = d \<and> 2 * r \<le> P"
    if "\<not> (2 * (a mod P) > P \<or> (2 * (a mod P) = P \<and> odd (a div P)))"
    using that by (auto simp: q' d_def r_def)
  show "2 * (q' * P - a) \<le> P"
    using up down split r
    by (cases "2 * (a mod P) > P \<or> (2 * (a mod P) = P \<and> odd (a div P))") auto
  show "2 * (a - q' * P) \<le> P"
    using up down split r
    by (cases "2 * (a mod P) > P \<or> (2 * (a mod P) = P \<and> odd (a div P))") auto
qed

text \<open>The comparison is the comparison of the numbers.\<close>

lemma int_gt_float_exact:
  "int_gt_float i d \<longleftrightarrow> real_of_int i > real_of_double d"
proof (cases "0 \<le> expo d")
  case True
  then have "real_of_double d = real_of_int (mant d * 2 ^ nat (expo d))"
    by (simp add: real_of_double_def powr_int)
  then show ?thesis
    using True by (simp only: int_gt_float_def if_True of_int_less_iff)
next
  case False
  then have "real_of_double d = real_of_int (mant d) / 2 ^ nat (- expo d)"
    by (simp add: real_of_double_def powr_int)
  moreover have "real_of_int i > real_of_int (mant d) / 2 ^ nat (- expo d)
                 \<longleftrightarrow> real_of_int (i * 2 ^ nat (- expo d)) > real_of_int (mant d)"
    by (simp add: field_simps)
  ultimately show ?thesis
    using False by (simp only: int_gt_float_def if_False of_int_less_iff)
qed

text \<open>
  The literal is within half a unit in the last place of nine tenths (the doubles between
  a half and one are \<open>1 / 2 ^ 53\<close> apart).
\<close>

lemma float_0_9_nearest:
  "\<bar>real_of_double float_0_9 - 9 / 10\<bar> < 1 / 2 ^ 54"
proof -
  have p: "(2::real) powr real_of_int (- 53) = 1 / 2 ^ 53"
    using powr_int [of "2::real" "- 53"] by simp
  have "real_of_double float_0_9 = 8106479329266893 / 2 ^ 53"
    by (simp only: real_of_double_def float_0_9_def double.sel p)
  then show ?thesis by simp
qed

text \<open>
  The rounded value has a mantissa of 53 bits and lies within half a unit in its last
  place of the exact value.
\<close>

lemma round_to_double_nearest:
  "2 * \<bar>real_of_double (round_to_double n e) - real_of_int n * 2 powr real_of_int e\<bar>
     \<le> 2 powr real_of_int (expo (round_to_double n e))
   \<and> \<bar>mant (round_to_double n e)\<bar> \<le> 2 ^ 53"
proof (cases "bitlen \<bar>n\<bar> \<le> 53")
  case True
  then have "\<bar>n\<bar> < 2 ^ 53"
    by (simp add: bitlen_le_iff_power)
  with True show ?thesis
    by (simp add: round_to_double_def Let_def real_of_double_def)
next
  case False
  define a where "a = \<bar>n\<bar>"
  define s where "s = nat (bitlen a - 53)"
  define P :: int where "P = 2 ^ s"
  define q' where "q' = (if 2 * (a mod P) > P \<or> (2 * (a mod P) = P \<and> odd (a div P))
                         then a div P + 1 else a div P)"
  have rd: "round_to_double n e = Dbl (sgn n * q') (e + int s)"
    using False by (simp add: round_to_double_def Let_def a_def s_def P_def q'_def)
  have Ppos: "0 < P" by (simp add: P_def)
  have apos: "0 < a" using False by (cases "n = 0") (simp_all add: a_def)
  have up: "2 * (q' * P - a) \<le> P"
    using round_half_even_bounds(2) [OF Ppos q'_def] .
  have down: "2 * (a - q' * P) \<le> P"
    using round_half_even_bounds(3) [OF Ppos q'_def] .
  define x where "x = q' * P - a"
  have "2 * x \<le> P" and "2 * (- x) \<le> P"
    using up down by (simp_all add: x_def)
  then have "2 * \<bar>x\<bar> \<le> P"
    by linarith
  then have err: "2 * \<bar>q' * P - a\<bar> \<le> P"
    by (simp add: x_def)
  have q'0: "0 \<le> q'"
    using apos Ppos by (simp add: q'_def pos_imp_zdiv_nonneg_iff)
  \<comment> \<open>the mantissa fits\<close>
  have "a < 2 ^ nat (bitlen a)"
    using bitlen_bounds [OF apos] by simp
  also have "nat (bitlen a) = 53 + s"
    using False by (simp add: s_def a_def)
  finally have "a < 2 ^ 53 * P"
    by (simp add: P_def power_add)
  moreover have "a div P * P \<le> a"
  proof -
    have "a = a div P * P + a mod P" by simp
    moreover have "0 \<le> a mod P" using Ppos by simp
    ultimately show ?thesis by linarith
  qed
  ultimately have "a div P < 2 ^ 53"
  proof -
    assume lt: "a < 2 ^ 53 * P" and le: "a div P * P \<le> a"
    show ?thesis
    proof (rule ccontr)
      assume "\<not> a div P < 2 ^ 53"
      then have "2 ^ 53 \<le> a div P" by simp
      then have "2 ^ 53 * P \<le> a div P * P"
        using Ppos by (simp add: mult_right_mono)
      with lt le show False by linarith
    qed
  qed
  then have q'max: "q' \<le> 2 ^ 53"
    by (simp add: q'_def)
  \<comment> \<open>the error\<close>
  have sc: "2 powr real_of_int (e + int s) = real_of_int P * 2 powr real_of_int e"
    by (simp add: P_def powr_add powr_realpow)
  have sc': "2 powr (real_of_int e + real s) = real_of_int P * 2 powr real_of_int e"
    using sc by simp
  have sgn1: "\<bar>sgn n\<bar> = 1"
    using apos by (simp add: a_def abs_sgn_eq)
  then have sg: "\<bar>real_of_int (sgn n)\<bar> = 1"
    by (metis of_int_abs of_int_1)
  have "n = sgn n * a"
    by (simp add: a_def sgn_mult_abs)
  then have n: "real_of_int n = real_of_int (sgn n) * real_of_int a"
    by (metis of_int_mult)
  have "real_of_double (round_to_double n e) - real_of_int n * 2 powr real_of_int e
        = real_of_int (sgn n) * real_of_int (q' * P - a) * 2 powr real_of_int e"
    by (simp add: rd real_of_double_def sc' n algebra_simps)
  then have "\<bar>real_of_double (round_to_double n e) - real_of_int n * 2 powr real_of_int e\<bar>
        = real_of_int \<bar>q' * P - a\<bar> * 2 powr real_of_int e"
    using apos sg by (simp add: abs_mult a_def)
  moreover have "2 * real_of_int \<bar>q' * P - a\<bar> \<le> real_of_int P"
    using err by (metis of_int_le_iff of_int_mult of_int_numeral)
  ultimately have "2 * \<bar>real_of_double (round_to_double n e) - real_of_int n * 2 powr real_of_int e\<bar>
       \<le> real_of_int P * 2 powr real_of_int e"
    by (simp add: mult_right_mono flip: mult.assoc)
  moreover have "2 powr real_of_int (expo (round_to_double n e)) = real_of_int P * 2 powr real_of_int e"
    by (simp only: rd double.sel sc)
  moreover have "\<bar>mant (round_to_double n e)\<bar> \<le> 2 ^ 53"
    using sgn1 q'0 q'max by (simp add: rd abs_mult)
  ultimately show ?thesis
    by simp
qed

text \<open>
  While the product stays below \<open>2 ^ 50\<close> the doubles around it are at most an eighth
  apart, and the rounded product separates the integers exactly as nine tenths of the
  limit does.
\<close>

lemma float_mul_0_9_small:
  assumes B0: "0 \<le> B" and Bmax: "B \<le> 1250999896491804"
  shows "int_gt_float T (float_mul float_0_9 (Dbl B 0)) \<longleftrightarrow> 10 * T > 9 * B"
proof -
  define n where "n = 8106479329266893 * B"
  have n0: "0 \<le> n"
    using B0 by (simp add: n_def)
  have nmax: "n < 2 ^ 103"
    using Bmax by (simp add: n_def)
  have prod: "float_mul float_0_9 (Dbl B 0) = round_to_double n (- 53)"
    by (simp add: float_mul_def float_0_9_def n_def)
  show ?thesis
  proof (cases "bitlen n \<le> 53")
    case True
    then have "round_to_double n (- 53) = Dbl n (- 53)"
      using n0 by (simp add: round_to_double_def Let_def)
    then have "int_gt_float T (float_mul float_0_9 (Dbl B 0)) \<longleftrightarrow> T * 2 ^ 53 > n"
      by (simp add: prod int_gt_float_def)
    also have "\<dots> \<longleftrightarrow> 10 * T > 9 * B"
      using B0 Bmax by (simp add: n_def) linarith
    finally show ?thesis .
  next
    case False
    define s where "s = nat (bitlen n - 53)"
    define P :: int where "P = 2 ^ s"
    define q' where "q' = (if 2 * (n mod P) > P \<or> (2 * (n mod P) = P \<and> odd (n div P))
                           then n div P + 1 else n div P)"
    have npos: "0 < n"
      using False n0 by (cases "n = 0") simp_all
    have "bitlen n \<le> 103"
      using nmax by (simp add: bitlen_le_iff_power)
    then have s50: "s \<le> 50"
      using False by (simp add: s_def)
    have Ppos: "0 < P"
      by (simp add: P_def)
    have "P \<le> 2 ^ 50"
      unfolding P_def using s50 by (intro power_increasing) simp_all
    then have Pmax: "P \<le> 1125899906842624"
      by simp
    have rd: "round_to_double n (- 53) = Dbl q' (int s - 53)"
      using False npos by (simp add: round_to_double_def Let_def s_def P_def q'_def)
    have "int s - 53 < 0"
      using s50 by simp
    then have cmp: "int_gt_float T (float_mul float_0_9 (Dbl B 0)) \<longleftrightarrow> T * 2 ^ (53 - s) > q'"
      using s50 by (simp add: prod rd int_gt_float_def nat_diff_distrib')
    have "(2::int) ^ (53 - s) * 2 ^ s = 2 ^ 53"
      using s50 by (simp flip: power_add)
    then have scale: "2 ^ (53 - s) * P = (9007199254740992::int)"
      by (simp add: P_def)
    note bounds = round_half_even_bounds [OF Ppos q'_def]
    have "T * 2 ^ (53 - s) > q' \<longleftrightarrow> 10 * T > 9 * B"
    proof
      assume gt: "T * 2 ^ (53 - s) > q'"
      show "10 * T > 9 * B"
      proof (rule ccontr)
        assume "\<not> 10 * T > 9 * B"
        then have le: "10 * T \<le> 9 * B" by simp
        have "T * 9007199254740992 \<le> n"
          using le B0 by (simp add: n_def)
        then have "(T * 2 ^ (53 - s)) * P \<le> n"
          using scale by (simp add: mult.assoc)
        then have "T * 2 ^ (53 - s) \<le> n div P"
          using Ppos zdiv_mono1 by fastforce
        with bounds(1) gt show False by linarith
      qed
    next
      assume gt: "10 * T > 9 * B"
      have "q' * P < T * 9007199254740992"
        using gt bounds(2) Pmax Bmax B0 by (simp add: n_def)
      then have "q' * P < (T * 2 ^ (53 - s)) * P"
        using scale by (simp add: mult.assoc)
      then show "T * 2 ^ (53 - s) > q'"
        using Ppos by simp
    qed
    with cmp show ?thesis by simp
  qed
qed

text \<open>
  The six limits after that, up to the last one before the first disagreement, are
  checked one by one: their products are rounded to quarters.
\<close>

lemma float_mul_0_9_top:
  assumes "1250999896491805 \<le> B" and "B \<le> 1250999896491810"
  shows "int_gt_float T (float_mul float_0_9 (Dbl B 0)) \<longleftrightarrow> 10 * T > 9 * B"
proof -
  have p5: "float_mul float_0_9 (Dbl 1250999896491805 0) = Dbl 4503599627370498 (- 2)"
    by code_simp
  have p6: "float_mul float_0_9 (Dbl 1250999896491806 0) = Dbl 4503599627370502 (- 2)"
    by code_simp
  have p7: "float_mul float_0_9 (Dbl 1250999896491807 0) = Dbl 4503599627370505 (- 2)"
    by code_simp
  have p8: "float_mul float_0_9 (Dbl 1250999896491808 0) = Dbl 4503599627370509 (- 2)"
    by code_simp
  have p9: "float_mul float_0_9 (Dbl 1250999896491809 0) = Dbl 4503599627370513 (- 2)"
    by code_simp
  have p10: "float_mul float_0_9 (Dbl 1250999896491810 0) = Dbl 4503599627370516 (- 2)"
    by code_simp
  from assms consider "B = 1250999896491805" | "B = 1250999896491806"
    | "B = 1250999896491807" | "B = 1250999896491808" | "B = 1250999896491809"
    | "B = 1250999896491810"
    by linarith
  then show ?thesis
  proof cases
    case 1 then show ?thesis by (simp add: p5 int_gt_float_def; presburger)
  next
    case 2 then show ?thesis by (simp add: p6 int_gt_float_def; presburger)
  next
    case 3 then show ?thesis by (simp add: p7 int_gt_float_def; presburger)
  next
    case 4 then show ?thesis by (simp add: p8 int_gt_float_def; presburger)
  next
    case 5 then show ?thesis by (simp add: p9 int_gt_float_def; presburger)
  next
    case 6 then show ?thesis by (simp add: p10 int_gt_float_def; presburger)
  qed
qed

text \<open>Rounding is symmetric: the negative of a number rounds to the negative of its double.\<close>

lemma round_to_double_minus:
  "round_to_double (- n) e =
     Dbl (- mant (round_to_double n e)) (expo (round_to_double n e))"
  unfolding round_to_double_def Let_def abs_minus_cancel sgn_minus
  by simp

text \<open>
  The same for a negative limit. When nine tenths of the limit are an integer, the exact
  product lies just above it in magnitude and rounds back onto it.
\<close>

lemma float_mul_0_9_small_neg:
  assumes C0: "0 < C" and Cmax: "C \<le> 1250999896491804"
  shows "int_gt_float T (float_mul float_0_9 (Dbl (- C) 0)) \<longleftrightarrow> 10 * T > 9 * (- C)"
proof -
  define n where "n = 8106479329266893 * C"
  have npos: "0 < n"
    using C0 by (simp add: n_def)
  have nmax: "n < 2 ^ 103"
    using Cmax by (simp add: n_def)
  have prod: "float_mul float_0_9 (Dbl (- C) 0) = round_to_double (- n) (- 53)"
    by (simp add: float_mul_def float_0_9_def n_def)
  show ?thesis
  proof (cases "bitlen n \<le> 53")
    case True
    then have "n < 2 ^ 53"
      by (simp add: bitlen_le_iff_power)
    then have C1: "C = 1"
      using C0 by (simp add: n_def)
    have "round_to_double n (- 53) = Dbl n (- 53)"
      using True npos by (simp add: round_to_double_def Let_def)
    then have "round_to_double (- n) (- 53) = Dbl (- n) (- 53)"
      by (simp add: round_to_double_minus)
    then have "int_gt_float T (float_mul float_0_9 (Dbl (- C) 0)) \<longleftrightarrow> T * 2 ^ 53 > - n"
      by (simp add: prod int_gt_float_def)
    also have "\<dots> \<longleftrightarrow> 10 * T > 9 * (- C)"
      by (auto simp: n_def C1)
    finally show ?thesis .
  next
    case False
    define s where "s = nat (bitlen n - 53)"
    define P :: int where "P = 2 ^ s"
    define q' where "q' = (if 2 * (n mod P) > P \<or> (2 * (n mod P) = P \<and> odd (n div P))
                           then n div P + 1 else n div P)"
    have "bitlen n \<le> 103"
      using nmax by (simp add: bitlen_le_iff_power)
    then have s50: "s \<le> 50"
      using False by (simp add: s_def)
    have Ppos: "0 < P"
      by (simp add: P_def)
    have "P \<le> 2 ^ 50"
      unfolding P_def using s50 by (intro power_increasing) simp_all
    then have Pmax: "P \<le> 1125899906842624"
      by simp
    have "n < 2 ^ nat (bitlen n)"
      using bitlen_bounds [OF npos] by simp
    also have "nat (bitlen n) = 53 + s"
      using False by (simp add: s_def)
    finally have nP: "n < 9007199254740992 * P"
      by (simp add: P_def power_add)
    have "round_to_double n (- 53) = Dbl q' (int s - 53)"
      using False npos by (simp add: round_to_double_def Let_def s_def P_def q'_def)
    then have rd: "round_to_double (- n) (- 53) = Dbl (- q') (int s - 53)"
      by (simp add: round_to_double_minus)
    have "int s - 53 < 0"
      using s50 by simp
    then have cmp: "int_gt_float T (float_mul float_0_9 (Dbl (- C) 0)) \<longleftrightarrow> T * 2 ^ (53 - s) > - q'"
      using s50 by (simp add: prod rd int_gt_float_def nat_diff_distrib')
    have "(2::int) ^ (53 - s) * 2 ^ s = 2 ^ 53"
      using s50 by (simp flip: power_add)
    then have scale: "2 ^ (53 - s) * P = (9007199254740992::int)"
      by (simp add: P_def)
    note bounds = round_half_even_bounds [OF Ppos q'_def]
    define U where "U = - T"
    define t where "t = U * 2 ^ (53 - s)"
    have tP: "t * P = U * 9007199254740992"
      using scale by (simp add: t_def mult.assoc)
    have "t < q' \<longleftrightarrow> 10 * U < 9 * C"
    proof
      assume lt: "10 * U < 9 * C"
      have "t * P < q' * P"
        using lt bounds(3) Pmax Cmax C0 unfolding tP by (simp add: n_def)
      then show "t < q'"
        using Ppos by simp
    next
      assume lt: "t < q'"
      show "10 * U < 9 * C"
      proof (rule ccontr)
        assume "\<not> 10 * U < 9 * C"
        then consider "10 * U \<ge> 9 * C + 1" | "10 * U = 9 * C" by linarith
        then show False
        proof cases
          case 1
          have "q' * P \<le> t * P"
            using 1 bounds(2) Pmax Cmax C0 unfolding tP by (simp add: n_def)
          then have "q' \<le> t" using Ppos by simp
          with lt show False by simp
        next
          case 2
          define r where "r = 2 * U - 2 * C + (C - U)"
          \<comment> \<open>\<open>C = 10 * k\<close> and \<open>U = 9 * k\<close>; the remainder is \<open>2 * k\<close>\<close>
          obtain k where k: "C = 10 * k" "U = 9 * k"
          proof -
            from 2 have "10 dvd 9 * C" by (metis dvd_triv_left)
            then have "10 dvd C" by presburger
            then obtain k where "C = 10 * k" by (auto simp: dvd_def)
            with 2 have "U = 9 * k" by simp
            with \<open>C = 10 * k\<close> show ?thesis using that by blast
          qed
          have n_eq: "n = t * P + 2 * k"
            unfolding tP by (simp add: n_def k)
          have k0: "0 < k" using C0 k by simp
          have kP: "4 * k < P"
            using nP k0 by (simp add: n_def k)
          have "n div P = t" "n mod P = 2 * k"
            using k0 kP Ppos unfolding n_eq by simp_all
          then have "q' = t"
            using kP k0 by (simp add: q'_def)
          with lt show False by simp
        qed
      qed
    qed
    then have "- (T * 2 ^ (53 - s)) < q' \<longleftrightarrow> - (10 * T) < 9 * C"
      by (simp add: t_def U_def)
    moreover have "T * 2 ^ (53 - s) > - q' \<longleftrightarrow> - (T * 2 ^ (53 - s)) < q'"
      by linarith
    moreover have "10 * T > 9 * (- C) \<longleftrightarrow> - (10 * T) < 9 * C"
      by linarith
    ultimately have "T * 2 ^ (53 - s) > - q' \<longleftrightarrow> 10 * T > 9 * (- C)"
      by blast
    with cmp show ?thesis by simp
  qed
qed

lemma float_mul_0_9_top_neg:
  assumes "- 1250999896491810 \<le> B" and "B \<le> - 1250999896491805"
  shows "int_gt_float T (float_mul float_0_9 (Dbl B 0)) \<longleftrightarrow> 10 * T > 9 * B"
proof -
  have p5: "float_mul float_0_9 (Dbl (- 1250999896491805) 0) = Dbl (- 4503599627370498) (- 2)"
    by code_simp
  have p6: "float_mul float_0_9 (Dbl (- 1250999896491806) 0) = Dbl (- 4503599627370502) (- 2)"
    by code_simp
  have p7: "float_mul float_0_9 (Dbl (- 1250999896491807) 0) = Dbl (- 4503599627370505) (- 2)"
    by code_simp
  have p8: "float_mul float_0_9 (Dbl (- 1250999896491808) 0) = Dbl (- 4503599627370509) (- 2)"
    by code_simp
  have p9: "float_mul float_0_9 (Dbl (- 1250999896491809) 0) = Dbl (- 4503599627370513) (- 2)"
    by code_simp
  have p10: "float_mul float_0_9 (Dbl (- 1250999896491810) 0) = Dbl (- 4503599627370516) (- 2)"
    by code_simp
  from assms consider "B = - 1250999896491805" | "B = - 1250999896491806"
    | "B = - 1250999896491807" | "B = - 1250999896491808" | "B = - 1250999896491809"
    | "B = - 1250999896491810"
    by linarith
  then show ?thesis
  proof cases
    case 1 then show ?thesis by (simp add: p5 int_gt_float_def; presburger)
  next
    case 2 then show ?thesis by (simp add: p6 int_gt_float_def; presburger)
  next
    case 3 then show ?thesis by (simp add: p7 int_gt_float_def; presburger)
  next
    case 4 then show ?thesis by (simp add: p8 int_gt_float_def; presburger)
  next
    case 5 then show ?thesis by (simp add: p9 int_gt_float_def; presburger)
  next
    case 6 then show ?thesis by (simp add: p10 int_gt_float_def; presburger)
  qed
qed

lemma float_of_int_exact:
  assumes "- 1250999896491810 \<le> B" and "B \<le> 1250999896491810"
  shows "float_of_int B = Inr (Dbl B 0)"
proof -
  have "\<bar>B\<bar> < 2 ^ 53"
    using assms by simp
  then have "bitlen \<bar>B\<bar> \<le> 53"
    by (simp add: bitlen_le_iff_power)
  then show ?thesis
    by (simp add: float_of_int_def round_to_double_def Let_def)
qed

lemma nine_tenths_real:
  "real_of_int T > 0.9 * real_of_int B \<longleftrightarrow> 10 * T > 9 * B"
proof -
  have "real_of_int T > 0.9 * real_of_int B \<longleftrightarrow> real_of_int (10 * T) > real_of_int (9 * B)"
    by (simp add: mult.commute)
  also have "\<dots> \<longleftrightarrow> 10 * T > 9 * B"
    by (simp only: of_int_less_iff)
  finally show ?thesis .
qed

lemma select_chain_exact:
  assumes "- 1250999896491810 \<le> B" and "B \<le> 1250999896491810"
  shows "select_chain T B =
           Inr (if real_of_int T > 0.9 * real_of_int B then ''map_reduce'' else ''stuff'')"
proof -
  have "int_gt_float T (float_mul float_0_9 (Dbl B 0)) \<longleftrightarrow> 10 * T > 9 * B"
  proof -
    consider "1250999896491805 \<le> B" | "0 \<le> B" "B \<le> 1250999896491804"
      | "B < 0" "- 1250999896491804 \<le> B" | "B \<le> - 1250999896491805"
      by linarith
    then show ?thesis
    proof cases
      case 1
      with assms show ?thesis by (simp add: float_mul_0_9_top)
    next
      case 2
      then show ?thesis by (simp add: float_mul_0_9_small)
    next
      case 3
      then have "0 < - B" and "- B \<le> 1250999896491804" by simp_all
      from float_mul_0_9_small_neg [OF this, of T] show ?thesis by simp
    next
      case 4
      with assms show ?thesis by (simp add: float_mul_0_9_top_neg)
    qed
  qed
  then show ?thesis
    using assms by (simp add: select_chain_def float_of_int_exact nine_tenths_real)
qed

section \<open>Notebook 04: the choice of the chain type\<close>

text \<open>
  C1. For a non-empty result set, a prompt template of \<open>p\<close> tokens, a context of
  \<open>c\<close> tokens, \<open>m\<close> requested completion tokens and a model token budget \<open>B\<close>,
  the cell binds \<open>chain_type\<close> to \<open>"map_reduce"\<close> if and only if
  \<open>p + c + m > 0.9 * B\<close> over the reals, and to \<open>"stuff"\<close> otherwise. The budget is
  the entry of a model in the table of \<open>model_tokens_limit\<close>; the statement covers
  every budget up to 1250999896491810 in magnitude, the range in which the double product
  \<open>0.9 * tokens_limit\<close> separates the integers as the exact nine tenths do.
\<close>

theorem chain_type_threshold:
  assumes "top_docs \<noteq> []"
    and "- 1250999896491810 \<le> model_tokens_limit MODEL"
    and "model_tokens_limit MODEL \<le> 1250999896491810"
  shows "\<exists>cell. count_tokens_cell model_tokens_limit num_tokens_from_string num_tokens_from_docs
                  MODEL TEMPLATE COMPLETION_TOKENS top_docs = Inr cell
            \<and> chain_type cell =
                Some (if real_of_int (num_tokens_from_string TEMPLATE + num_tokens_from_docs top_docs
                                      + COMPLETION_TOKENS)
                         > 0.9 * real_of_int (model_tokens_limit MODEL)
                      then ''map_reduce'' else ''stuff'')"
  using assms by (simp add: count_tokens_cell_def Let_def select_chain_exact)

text \<open>
  The run recorded in the notebook: limit 32768, template 1669 tokens, context 4111
  tokens, 1000 completion tokens; the total is 6780 and the chain type is \<open>"stuff"\<close>.
\<close>

theorem chain_type_threshold_witness:
  "(1669::int) + 4111 + 1000 = 6780
   \<and> (\<exists>cell. count_tokens_cell (\<lambda>model. 32768) (\<lambda>text. 1669) (\<lambda>docs. 4111)
                ''gpt-4-32k'' ''template'' 1000 [''page''] = Inr cell
          \<and> chain_type cell = Some ''stuff'')"
  using chain_type_threshold [of "[''page'']" "\<lambda>model. 32768" "''gpt-4-32k''" "\<lambda>text. 1669"
      "\<lambda>docs. 4111" "''template''" 1000]
  by simp

text \<open>
  The notebook names four models (\<open>gpt-35-turbo\<close>, \<open>gpt-35-turbo-16k\<close>, \<open>gpt-4\<close>,
  \<open>gpt-4-32k\<close>) and records the budget 32768 for the last one: such budgets lie far
  inside the range. Its upper end is where floats stop being fine enough: at
  1250999896491811 nine tenths are 1125899906842629.9 and the double product is
  1125899906842630.0.
\<close>

lemma select_chain_past_the_range:
  "real_of_int 1125899906842630 > 0.9 * real_of_int 1250999896491811
   \<and> select_chain 1125899906842630 1250999896491811 = Inr ''stuff''"
proof -
  have "select_chain 1125899906842630 1250999896491811 = Inr ''stuff''"
    by code_simp
  then show ?thesis by simp
qed

text \<open>
  C10. The cell leaves every token count and the chain type unbound and prints only
  \<open>NO RESULTS FROM AZURE SEARCH\<close> exactly when the search returned no result: with
  no result nothing is counted or selected, and with at least one the cell never ends
  that way.
\<close>

theorem empty_results_guard:
  "count_tokens_cell model_tokens_limit num_tokens_from_string num_tokens_from_docs
       MODEL TEMPLATE COMPLETION_TOKENS (make_top_docs BLOB_SAS_TOKEN ordered_results)
     = Inr \<lparr>tokens_limit = None, prompt_tokens = None, context_tokens = None,
            requested_tokens = None, chain_type = None,
            printed = [''NO RESULTS FROM AZURE SEARCH'']\<rparr>
   \<longleftrightarrow> ordered_results = []"
  by (auto simp: count_tokens_cell_def make_top_docs_def Let_def split: sum.splits)

text \<open>
  With one result the counts are taken and a chain type is chosen; here the run
  recorded in the notebook.
\<close>

lemma one_result_is_counted:
  "count_tokens_cell (\<lambda>model. 32768) (\<lambda>text. 1669) (\<lambda>docs. 4111) ''gpt-4-32k'' ''template'' 1000
       (make_top_docs ''?sv=token''
          [(''key1'', \<lparr>result_chunk = ''What is Azure AI Search?'', result_location = None\<rparr>)])
     = Inr \<lparr>tokens_limit = Some 32768, prompt_tokens = Some 1669, context_tokens = Some 4111,
            requested_tokens = Some 6780, chain_type = Some ''stuff'',
            printed =
              [''System prompt token count: 1669'',
               ''Max Completion Token count: 1000'',
               ''Combined docs (context) token count: 4111'',
               ''--------'',
               ''Requested token count: 6780'',
               ''Token limit for gpt-4-32k : 32768'',
               ''Chain Type selected: stuff'']\<rparr>"
  by code_simp

section \<open>Notebook 04: what the upload loop posts\<close>

lemma upload_except_posted:
  "posted (fst (upload_except e content st)) = posted st"
  by (simp add: upload_except_def)

text \<open>One page adds at most one document, and only when the embedding call returned.\<close>

lemma upload_page_posted:
  "posted (fst (upload_page env bookname (i, off, content) st)) =
     posted st @
     (case embed_query env (if content = [] then ''-------'' else content) of
        Inl e \<Rightarrow> []
      | Inr vector \<Rightarrow>
          [\<lparr>doc_id = text_to_base64 env (bookname @ str_int (i + 1)),
            doc_title = bookname @ ''_page_'' @ str_int (i + 1),
            doc_chunk = content,
            doc_chunkVector = vector,
            doc_name = bookname,
            doc_location = BASE_CONTAINER_URL env @ bookname,
            doc_page_num = i + 1,
            doc_search_action = ''upload''\<rparr>])"
  by (auto simp: upload_page_def Let_def upload_except_posted split: sum.splits prod.splits)

lemma upload_page_from_page:
  assumes "d \<in> set (posted (fst (upload_page env bookname page st)))"
  shows "d \<in> set (posted st) \<or> from_page env bookname page d"
proof -
  obtain i off content where page: "page = (i, off, content)"
    by (cases page) auto
  show ?thesis
    using assms unfolding page upload_page_posted
    by (auto simp: from_page_def split: sum.splits if_splits)
qed

lemma upload_pages_from_page:
  assumes "d \<in> set (posted (fst (upload_pages env bookname bookmap st)))"
  shows "d \<in> set (posted st) \<or> (\<exists>page \<in> set bookmap. from_page env bookname page d)"
  using assms
proof (induction bookmap arbitrary: st)
  case Nil
  then show ?case by simp
next
  case (Cons page bookmap)
  obtain st' r where step: "upload_page env bookname page st = (st', r)"
    by (cases "upload_page env bookname page st") auto
  have here: "x \<in> set (posted st') \<Longrightarrow> x \<in> set (posted st) \<or> from_page env bookname page x" for x
    using upload_page_from_page [of x env bookname page st] by (simp add: step)
  show ?case
  proof (cases r)
    case None
    with Cons.prems step
    have "d \<in> set (posted (fst (upload_pages env bookname bookmap st')))"
      by simp
    from Cons.IH [OF this] here show ?thesis by auto
  next
    case (Some e)
    with Cons.prems step have "d \<in> set (posted st')" by simp
    with here show ?thesis by auto
  qed
qed

lemma upload_books_from_page:
  assumes "d \<in> set (posted (fst (upload_books env book_pages_map st)))"
  shows "d \<in> set (posted st)
         \<or> (\<exists>(bookname, bookmap) \<in> set book_pages_map.
               \<exists>page \<in> set bookmap. from_page env bookname page d)"
  using assms
proof (induction book_pages_map arbitrary: st)
  case Nil
  then show ?case by simp
next
  case (Cons book book_pages_map)
  obtain bookname bookmap where book: "book = (bookname, bookmap)"
    by (cases book) auto
  define st0 where "st0 = st\<lparr>upload_out := upload_out st @ [''Uploading chunks from '' @ bookname]\<rparr>"
  have st0: "posted st0 = posted st"
    by (simp add: st0_def)
  have unfold: "upload_books env (book # book_pages_map) st =
      (case upload_pages env bookname bookmap st0 of
         (st', Some e) \<Rightarrow> (st', Some e)
       | (st', None) \<Rightarrow> upload_books env book_pages_map st')"
    by (simp add: book st0_def)
  obtain st' r where step: "upload_pages env bookname bookmap st0 = (st', r)"
    by (cases "upload_pages env bookname bookmap st0") auto
  have here: "x \<in> set (posted st') \<Longrightarrow>
                x \<in> set (posted st) \<or> (\<exists>page \<in> set bookmap. from_page env bookname page x)" for x
    using upload_pages_from_page [of x env bookname bookmap st0] by (simp add: step st0)
  show ?case
  proof (cases r)
    case None
    with Cons.prems
    have "d \<in> set (posted (fst (upload_books env book_pages_map st')))"
      unfolding unfold step by simp
    from Cons.IH [OF this] here show ?thesis by (auto simp: book)
  next
    case (Some e)
    with Cons.prems have "d \<in> set (posted st')" unfolding unfold step by simp
    with here show ?thesis by (auto simp: book)
  qed
qed

text \<open>
  Page by page: what the loop has posted is a beginning of what the pages call for, and
  all of it when the loop ran to its end.
\<close>

lemma upload_page_documents:
  "posted (fst (upload_page env bookname page st)) = posted st @ page_documents env bookname page"
  by (cases page) (simp add: upload_page_posted page_documents_def)

lemma upload_pages_documents:
  "\<exists>rest. posted st @ concat (map (page_documents env bookname) bookmap)
            = posted (fst (upload_pages env bookname bookmap st)) @ rest
         \<and> (snd (upload_pages env bookname bookmap st) = None \<longrightarrow> rest = [])"
proof (induction bookmap arbitrary: st)
  case Nil
  then show ?case by simp
next
  case (Cons page bookmap)
  obtain st' r where step: "upload_page env bookname page st = (st', r)"
    by (cases "upload_page env bookname page st") auto
  have st': "posted st' = posted st @ page_documents env bookname page"
    using upload_page_documents [of env bookname page st] by (simp add: step)
  have goal_lhs: "posted st @ concat (map (page_documents env bookname) (page # bookmap))
                  = posted st' @ concat (map (page_documents env bookname) bookmap)"
    by (simp add: st')
  show ?case
  proof (cases r)
    case None
    have res: "upload_pages env bookname (page # bookmap) st = upload_pages env bookname bookmap st'"
      by (simp add: step None)
    from Cons.IH [of st'] show ?thesis
      unfolding goal_lhs res .
  next
    case (Some e)
    have res: "upload_pages env bookname (page # bookmap) st = (st', Some e)"
      by (simp add: step Some)
    have "posted st' @ concat (map (page_documents env bookname) bookmap)
            = posted (fst (st', Some e)) @ concat (map (page_documents env bookname) bookmap)
          \<and> (snd (st', Some e) = None \<longrightarrow> concat (map (page_documents env bookname) bookmap) = [])"
      by simp
    then show ?thesis
      unfolding goal_lhs res by (rule exI)
  qed
qed

lemma upload_books_documents:
  "\<exists>rest. posted st @ concat (map (\<lambda>(bookname, bookmap).
                                   concat (map (page_documents env bookname) bookmap)) book_pages_map)
            = posted (fst (upload_books env book_pages_map st)) @ rest
         \<and> (snd (upload_books env book_pages_map st) = None \<longrightarrow> rest = [])"
proof (induction book_pages_map arbitrary: st)
  case Nil
  then show ?case by simp
next
  case (Cons book book_pages_map)
  obtain bookname bookmap where book: "book = (bookname, bookmap)"
    by (cases book) auto
  define st0 where "st0 = st\<lparr>upload_out := upload_out st @ [''Uploading chunks from '' @ bookname]\<rparr>"
  have st0: "posted st0 = posted st"
    by (simp add: st0_def)
  have unfold: "upload_books env (book # book_pages_map) st =
      (case upload_pages env bookname bookmap st0 of
         (st', Some e) \<Rightarrow> (st', Some e)
       | (st', None) \<Rightarrow> upload_books env book_pages_map st')"
    by (simp add: book st0_def)
  obtain st' r where step: "upload_pages env bookname bookmap st0 = (st', r)"
    by (cases "upload_pages env bookname bookmap st0") auto
  from upload_pages_documents [of st0 env bookname bookmap] obtain rest1 where
    rest1: "posted st @ concat (map (page_documents env bookname) bookmap) = posted st' @ rest1"
      "r = None \<longrightarrow> rest1 = []"
    by (auto simp: step st0)
  define others where "others = concat (map (\<lambda>(bookname, bookmap).
                             concat (map (page_documents env bookname) bookmap)) book_pages_map)"
  have goal_lhs: "posted st @ concat (map (\<lambda>(bookname, bookmap).
                             concat (map (page_documents env bookname) bookmap)) (book # book_pages_map))
                  = (posted st' @ rest1) @ others"
    using rest1(1) by (simp add: book others_def)
  show ?case
  proof (cases r)
    case None
    have res: "upload_books env (book # book_pages_map) st = upload_books env book_pages_map st'"
      unfolding unfold step None by simp
    have "rest1 = []"
      using rest1(2) None by simp
    then have lhs: "(posted st' @ rest1) @ others = posted st' @ others"
      by simp
    have "\<exists>rest. posted st' @ others = posted (fst (upload_books env book_pages_map st')) @ rest
            \<and> (snd (upload_books env book_pages_map st') = None \<longrightarrow> rest = [])"
      using Cons.IH [of st'] unfolding others_def .
    then show ?thesis
      unfolding goal_lhs lhs res .
  next
    case (Some e)
    have res: "upload_books env (book # book_pages_map) st = (st', Some e)"
      unfolding unfold step Some by simp
    have "(posted st' @ rest1) @ others = posted (fst (st', Some e)) @ (rest1 @ others)
          \<and> (snd (st', Some e) = None \<longrightarrow> rest1 @ others = [])"
      by simp
    then show ?thesis
      unfolding goal_lhs res by (rule exI)
  qed
qed

lemma upload_cell_documents:
  assumes "snd (upload_cell env book_pages_map) = None"
  shows "posted (fst (upload_cell env book_pages_map))
           = concat (map (\<lambda>(bookname, bookmap).
                            concat (map (page_documents env bookname) bookmap)) book_pages_map)"
proof -
  define start :: "'a upload_state" where "start = \<lparr>posted = [], upload_out = []\<rparr>"
  from upload_books_documents [of start env book_pages_map]
  obtain rest where rest:
    "posted start @ concat (map (\<lambda>(bookname, bookmap).
                    concat (map (page_documents env bookname) bookmap)) book_pages_map)
       = posted (fst (upload_books env book_pages_map start)) @ rest"
    "snd (upload_books env book_pages_map start) = None \<longrightarrow> rest = []"
    by (elim exE conjE) (rule that)
  have "rest = []"
    using rest(2) assms by (simp add: upload_cell_def start_def)
  with rest(1) show ?thesis
    by (simp add: upload_cell_def start_def)
qed

text \<open>The loop runs to its end when the services raise nothing but \<open>Exception\<close>s.\<close>

lemma upload_page_completes:
  assumes "\<And>s e. embed_query env s = Inl e \<Longrightarrow> is_Exception e"
    and "\<And>d e. requests_post env d = Inl e \<Longrightarrow> is_Exception e"
  shows "snd (upload_page env bookname page st) = None"
proof -
  have handler: "snd (upload_except e content st') = None" if "is_Exception e" for e content
    and st' :: "'a upload_state"
    using that by (simp add: upload_except_def)
  have tail: "snd (case x of Inl e \<Rightarrow> upload_except e content st'
                   | Inr (status_code, text) \<Rightarrow> (g status_code text, None)) = None"
    if "\<And>e. x = Inl e \<Longrightarrow> is_Exception e"
    for x :: "py_exception + int \<times> string" and content and st' :: "'a upload_state" and g
    using that by (cases x) (auto simp: handler)
  show ?thesis
  proof (cases "embed_query env (if snd (snd page) \<noteq> [] then snd (snd page) else ''-------'')")
    case (Inl e)
    with assms(1) have "is_Exception e" by blast
    with Inl show ?thesis
      by (simp add: upload_page_def Let_def handler)
  next
    case (Inr vector)
    show ?thesis
      unfolding upload_page_def Let_def Inr sum.case
      by (rule tail) (rule assms(2))
  qed
qed

lemma upload_pages_completes:
  assumes "\<And>s e. embed_query env s = Inl e \<Longrightarrow> is_Exception e"
    and "\<And>d e. requests_post env d = Inl e \<Longrightarrow> is_Exception e"
  shows "snd (upload_pages env bookname bookmap st) = None"
proof (induction bookmap arbitrary: st)
  case Nil
  then show ?case by simp
next
  case (Cons page bookmap)
  obtain st' where "upload_page env bookname page st = (st', None)"
    using upload_page_completes [of env bookname page st, OF assms]
    by (cases "upload_page env bookname page st") auto
  then show ?case by (simp add: Cons.IH)
qed

lemma upload_cell_completes:
  assumes "\<And>s e. embed_query env s = Inl e \<Longrightarrow> is_Exception e"
    and "\<And>d e. requests_post env d = Inl e \<Longrightarrow> is_Exception e"
  shows "snd (upload_cell env book_pages_map) = None"
proof -
  have "snd (upload_books env book_pages_map st) = None" for st
  proof (induction book_pages_map arbitrary: st)
    case Nil
    then show ?case by simp
  next
    case (Cons book book_pages_map)
    obtain bookname bookmap where book: "book = (bookname, bookmap)"
      by (cases book) auto
    define st0 where "st0 = st\<lparr>upload_out := upload_out st @ [''Uploading chunks from '' @ bookname]\<rparr>"
    have unfold: "upload_books env (book # book_pages_map) st =
        (case upload_pages env bookname bookmap st0 of
           (st', Some e) \<Rightarrow> (st', Some e)
         | (st', None) \<Rightarrow> upload_books env book_pages_map st')"
      by (simp add: book st0_def)
    obtain st' where "upload_pages env bookname bookmap st0 = (st', None)"
      using upload_pages_completes [of env bookname bookmap st0, OF assms]
      by (cases "upload_pages env bookname bookmap st0") auto
    then show ?case unfolding unfold by (simp add: Cons.IH)
  qed
  then show ?thesis by (simp add: upload_cell_def)
qed

text \<open>
  C9. Every document the upload loop posts comes from a parsed page of its book, keeps
  that page's extracted content as its \<open>chunk\<close>, and has as \<open>chunkVector\<close> the
  embedding of the placeholder \<open>-------\<close> when the content is the empty string and
  the embedding of the content otherwise. And for every page: when the loop runs to its
  end, the documents posted are exactly, book by book and page by page in order, one
  document for each page whose embedding call returned, with that page's content as
  \<open>chunk\<close> (the empty string for an empty page) and with the embedding of
  \<open>-------\<close> for an empty page, of the content for any other, as \<open>chunkVector\<close>.
  The loop does run to its end whenever the embedding service and the index service raise
  nothing but \<open>Exception\<close>s.
\<close>

theorem empty_page_placeholder:
  "(\<forall>d \<in> set (posted (fst (upload_cell env book_pages_map))).
      \<exists>bookmap i off content.
        (doc_name d, bookmap) \<in> set book_pages_map \<and> (i, off, content) \<in> set bookmap
        \<and> doc_page_num d = i + 1 \<and> doc_chunk d = content
        \<and> (if content = [] then embed_query env ''-------'' = Inr (doc_chunkVector d)
            else embed_query env content = Inr (doc_chunkVector d)))
   \<and> (snd (upload_cell env book_pages_map) = None \<longrightarrow>
        posted (fst (upload_cell env book_pages_map))
          = concat (map (\<lambda>(bookname, bookmap).
              concat (map (\<lambda>(i, off, content).
                case embed_query env (if content = [] then ''-------'' else content) of
                  Inl e \<Rightarrow> []
                | Inr vector \<Rightarrow>
                    [\<lparr>doc_id = text_to_base64 env (bookname @ str_int (i + 1)),
                      doc_title = bookname @ ''_page_'' @ str_int (i + 1),
                      doc_chunk = content,
                      doc_chunkVector = vector,
                      doc_name = bookname,
                      doc_location = BASE_CONTAINER_URL env @ bookname,
                      doc_page_num = i + 1,
                      doc_search_action = ''upload''\<rparr>]) bookmap)) book_pages_map))
   \<and> ((\<forall>s e. embed_query env s = Inl e \<longrightarrow> is_Exception e)
        \<and> (\<forall>d e. requests_post env d = Inl e \<longrightarrow> is_Exception e)
        \<longrightarrow> snd (upload_cell env book_pages_map) = None)"
proof (intro conjI ballI impI)
  fix d
  assume "d \<in> set (posted (fst (upload_cell env book_pages_map)))"
  with upload_books_from_page [of d env book_pages_map "\<lparr>posted = [], upload_out = []\<rparr>"]
  obtain bookname bookmap page where
    "(bookname, bookmap) \<in> set book_pages_map" "page \<in> set bookmap" "from_page env bookname page d"
    by (auto simp: upload_cell_def)
  then show "\<exists>bookmap i off content.
        (doc_name d, bookmap) \<in> set book_pages_map \<and> (i, off, content) \<in> set bookmap
        \<and> doc_page_num d = i + 1 \<and> doc_chunk d = content
        \<and> (if content = [] then embed_query env ''-------'' = Inr (doc_chunkVector d)
            else embed_query env content = Inr (doc_chunkVector d))"
    by (cases page) (auto simp: from_page_def split: if_splits)
next
  assume complete_run: "snd (upload_cell env book_pages_map) = None"
  have eq: "page_documents env bookname =
      (\<lambda>(i, off, content).
         case embed_query env (if content = [] then ''-------'' else content) of
           Inl e \<Rightarrow> []
         | Inr vector \<Rightarrow>
             [\<lparr>doc_id = text_to_base64 env (bookname @ str_int (i + 1)),
               doc_title = bookname @ ''_page_'' @ str_int (i + 1),
               doc_chunk = content,
               doc_chunkVector = vector,
               doc_name = bookname,
               doc_location = BASE_CONTAINER_URL env @ bookname,
               doc_page_num = i + 1,
               doc_search_action = ''upload''\<rparr>])" for bookname
    by (rule ext) (simp add: page_documents_def split: prod.splits)
  show "posted (fst (upload_cell env book_pages_map))
          = concat (map (\<lambda>(bookname, bookmap).
              concat (map (\<lambda>(i, off, content).
                case embed_query env (if content = [] then ''-------'' else content) of
                  Inl e \<Rightarrow> []
                | Inr vector \<Rightarrow>
                    [\<lparr>doc_id = text_to_base64 env (bookname @ str_int (i + 1)),
                      doc_title = bookname @ ''_page_'' @ str_int (i + 1),
                      doc_chunk = content,
                      doc_chunkVector = vector,
                      doc_name = bookname,
                      doc_location = BASE_CONTAINER_URL env @ bookname,
                      doc_page_num = i + 1,
                      doc_search_action = ''upload''\<rparr>]) bookmap)) book_pages_map)"
    using upload_cell_documents [OF complete_run] unfolding eq .
next
  assume services: "(\<forall>s e. embed_query env s = Inl e \<longrightarrow> is_Exception e)
        \<and> (\<forall>d e. requests_post env d = Inl e \<longrightarrow> is_Exception e)"
  show "snd (upload_cell env book_pages_map) = None"
  proof (rule upload_cell_completes)
    show "is_Exception e" if "embed_query env s = Inl e" for s e
      using services that by blast
    show "is_Exception e" if "requests_post env d = Inl e" for d e
      using services that by blast
  qed
qed

text \<open>
  A book of two pages, the first one empty, with the length of a text standing for its
  embedding: the loop runs to its end and posts two documents; the first keeps the empty
  chunk and carries 7, the embedding of the seven-character placeholder, the second
  carries the embedding of its text.
\<close>

theorem empty_page_placeholder_witness:
  "(let env = \<lparr>BASE_CONTAINER_URL = ''https://blob/books/'', text_to_base64 = (\<lambda>s. s),
               embed_query = (\<lambda>s. Inr (length s)), requests_post = (\<lambda>d. Inr (200, ''''))\<rparr>;
        cell = upload_cell env [(''images.pdf'', [(0, 0, ''''), (1, 4, ''text'')])]
    in snd cell = None
       \<and> posted (fst cell)
           = [\<lparr>doc_id = ''images.pdf1'', doc_title = ''images.pdf_page_1'', doc_chunk = '''',
               doc_chunkVector = 7, doc_name = ''images.pdf'',
               doc_location = ''https://blob/books/images.pdf'', doc_page_num = 1,
               doc_search_action = ''upload''\<rparr>,
              \<lparr>doc_id = ''images.pdf2'', doc_title = ''images.pdf_page_2'', doc_chunk = ''text'',
               doc_chunkVector = 4, doc_name = ''images.pdf'',
               doc_location = ''https://blob/books/images.pdf'', doc_page_num = 2,
               doc_search_action = ''upload''\<rparr>]
       \<and> embed_query env ''-------'' = Inr 7)"
proof -
  have run: "upload_cell
         \<lparr>BASE_CONTAINER_URL = ''https://blob/books/'', text_to_base64 = (\<lambda>s. s),
          embed_query = (\<lambda>s. Inr (length s)), requests_post = (\<lambda>d. Inr (200, ''''))\<rparr>
         [(''images.pdf'', [(0, 0, ''''), (1, 4, ''text'')])]
      = (\<lparr>posted =
            [\<lparr>doc_id = ''images.pdf1'', doc_title = ''images.pdf_page_1'', doc_chunk = '''',
              doc_chunkVector = 7, doc_name = ''images.pdf'',
              doc_location = ''https://blob/books/images.pdf'', doc_page_num = 1,
              doc_search_action = ''upload''\<rparr>,
             \<lparr>doc_id = ''images.pdf2'', doc_title = ''images.pdf_page_2'', doc_chunk = ''text'',
              doc_chunkVector = 4, doc_name = ''images.pdf'',
              doc_location = ''https://blob/books/images.pdf'', doc_page_num = 2,
              doc_search_action = ''upload''\<rparr>],
          upload_out = [''Uploading chunks from images.pdf'']\<rparr>, None)"
    by code_simp
  show ?thesis
    unfolding Let_def
    using empty_page_placeholder [of
        "\<lparr>BASE_CONTAINER_URL = ''https://blob/books/'', text_to_base64 = (\<lambda>s. s),
          embed_query = (\<lambda>s. Inr (length s)), requests_post = (\<lambda>d. Inr (200, ''''))\<rparr>"
        "[(''images.pdf'', [(0, 0, ''''), (1, 4, ''text'')])]"]
    by (simp add: run)
qed

section \<open>Notebooks 06 and 09: how often the loops call the agent\<close>

lemma tabular_retry_all_fail:
  assumes "\<forall>i \<in> set rest. \<exists>e. run i = Inl e" and "rest \<noteq> []"
  shows "tabular_retry run rest response calls =
           (Some ''Error too many failed retries'', calls + length rest)"
  using assms
proof (induction rest arbitrary: response calls)
  case Nil
  then show ?case by simp
next
  case (Cons i rest)
  then obtain e where e: "run i = Inl e" by auto
  show ?case
  proof (cases "rest = []")
    case True
    then show ?thesis by (simp add: e)
  next
    case False
    with Cons show ?thesis by (simp add: e)
  qed
qed

lemma api_retry_all_fail:
  assumes "\<forall>i \<in> set rest. run i = Inl (err i) \<and> is_Exception (err i)" and "rest \<noteq> []"
  shows "api_retry run rest response calls =
           Inr (Some (str_exc (err (last rest))), calls + length rest)"
  using assms
proof (induction rest arbitrary: response calls)
  case Nil
  then show ?case by simp
next
  case (Cons i rest)
  show ?case
  proof (cases "rest = []")
    case True
    with Cons.prems show ?thesis by simp
  next
    case False
    with Cons show ?thesis by simp
  qed
qed

text \<open>Whatever the agent does, the loops never call it more often than their ranges are long.\<close>

lemma tabular_retry_calls:
  "snd (tabular_retry run rest response calls) \<le> calls + length rest"
proof (induction rest arbitrary: response calls)
  case Nil
  then show ?case by simp
next
  case (Cons i rest)
  show ?case
  proof (cases "run i")
    case (Inl e)
    with Cons [of "Some ''Error too many failed retries''" "calls + 1"] show ?thesis by simp
  next
    case (Inr r)
    then show ?thesis by simp
  qed
qed

lemma api_retry_calls:
  "api_retry run rest response calls = Inr (final, n) \<Longrightarrow> n \<le> calls + length rest"
proof (induction rest arbitrary: response calls)
  case Nil
  then show ?case by simp
next
  case (Cons i rest)
  show ?case
  proof (cases "run i")
    case (Inl e)
    with Cons.prems Cons.IH [of "Some (str_exc e)" "calls + 1"] show ?thesis
      by (simp split: if_splits)
  next
    case (Inr r)
    with Cons.prems show ?thesis by auto
  qed
qed

lemma tabular_qa_cell_at_most_5: "snd (tabular_qa_cell run) \<le> 5"
  using tabular_retry_calls [of run "[0..<5]" None 0] by (simp add: tabular_qa_cell_def)

lemma api_search_cell_at_most_2: "api_search_cell run = Inr (final, n) \<Longrightarrow> n \<le> 2"
  using api_retry_calls [of run "[0..<2]" None 0 final n] by (simp add: api_search_cell_def)

text \<open>
  C3 (as amended). When every call of the agent raises, the loop of notebook 06 calls
  it five times and its result is the fixed message \<open>Error too many failed retries\<close>;
  when every call raises an \<open>Exception\<close>, the loop of notebook 09 calls it twice and
  its result is the text of the exception raised last.
\<close>

theorem retry_bounds:
  "((\<forall>i. \<exists>e. run i = Inl e) \<longrightarrow>
      tabular_qa_cell run = (Some ''Error too many failed retries'', 5))
   \<and> ((\<forall>i. run' i = Inl (err i) \<and> is_Exception (err i)) \<longrightarrow>
      api_search_cell run' = Inr (Some (str_exc (err 1)), 2))"
proof (intro conjI impI)
  assume "\<forall>i. \<exists>e. run i = Inl e"
  then show "tabular_qa_cell run = (Some ''Error too many failed retries'', 5)"
    using tabular_retry_all_fail [of "[0..<5]" run None 0]
    by (simp add: tabular_qa_cell_def)
next
  assume "\<forall>i. run' i = Inl (err i) \<and> is_Exception (err i)"
  then show "api_search_cell run' = Inr (Some (str_exc (err 1)), 2)"
    using api_retry_all_fail [of "[0..<2]" run' err None 0]
    by (simp add: api_search_cell_def)
qed

theorem retry_bounds_witness:
  "tabular_qa_cell (\<lambda>i. Inl (PyExc ''RateLimitError'' ''Requests to the model are throttled''))
     = (Some ''Error too many failed retries'', 5)
   \<and> api_search_cell (\<lambda>i. Inl (PyExc ''OutputParserException'' ''Could not parse LLM output''))
     = Inr (Some ''Could not parse LLM output'', 2)"
  using retry_bounds [of "\<lambda>i. Inl (PyExc ''RateLimitError'' ''Requests to the model are throttled'')"
      "\<lambda>i. Inl (PyExc ''OutputParserException'' ''Could not parse LLM output'')"
      "\<lambda>i. PyExc ''OutputParserException'' ''Could not parse LLM output''"]
  by (simp add: is_Exception_def str_exc_def)

text \<open>
  The claim as written fails on both loops. With an agent that is throttled at every
  call, the loop of notebook 06 makes five calls, not two at most; the loop of notebook
  09 makes two calls and ends with the text of the error, which is no fixed message: a
  different error gives a different result.
\<close>

theorem retry_bound_counterexample:
  "snd (tabular_qa_cell (\<lambda>i. Inl (PyExc ''RateLimitError'' ''Requests to the model are throttled''))) = 5
   \<and> \<not> (5::nat) \<le> 2
   \<and> api_search_cell (\<lambda>i. Inl (PyExc ''RateLimitError'' ''Requests to the model are throttled''))
       = Inr (Some ''Requests to the model are throttled'', 2)
   \<and> api_search_cell (\<lambda>i. Inl (PyExc ''Timeout'' ''The request timed out''))
       = Inr (Some ''The request timed out'', 2)
   \<and> ''Requests to the model are throttled'' \<noteq> ''Error too many failed retries''
   \<and> ''The request timed out'' \<noteq> ''Requests to the model are throttled''"
  by (simp add: tabular_qa_cell_def api_search_cell_def upt_rec is_Exception_def str_exc_def)

section \<open>Notebook 09: what the tools send and return\<close>

text \<open>
  C7. For every query text \<open>q\<close> the tool without an API description issues exactly one
  request, a GET to its fixed endpoint, whose parameters are the access key, the two
  fixed parameters and the search term set to \<open>q\<close>; and when the endpoint answers with
  a body that decodes as JSON, the tool returns that JSON serialized.
\<close>

theorem simple_api_request_shape:
  "fst (MySimpleAPISearch_run requests_get response_json json_dumps api_key q)
     = [\<lparr>req_method = ''GET'', req_url = ''https://api.countdownapi.com/request'',
         req_params = [(''api_key'', api_key), (''type'', ''search''),
                       (''ebay_domain'', ''ebay.com''), (''search_term'', q)]\<rparr>]
   \<and> map_of (simple_api_params api_key q) ''search_term'' = Some q
   \<and> map_of (simple_api_params api_key q) ''api_key'' = Some api_key
   \<and> (\<forall>api_result j.
         requests_get ''https://api.countdownapi.com/request'' (simple_api_params api_key q)
           = Inr api_result \<and> response_json api_result = Inr j
         \<longrightarrow> snd (MySimpleAPISearch_run requests_get response_json json_dumps api_key q)
               = Inr (PyStr (json_dumps j)))"
  by (auto simp: MySimpleAPISearch_run_def simple_api_params_def Let_def split: sum.splits)

theorem simple_api_request_shape_witness:
  "MySimpleAPISearch_run (\<lambda>url params. Inr ''{}'') (\<lambda>body. Inr body) (\<lambda>j. j)
       ''demo'' ''memory cards''
     = ([\<lparr>req_method = ''GET'', req_url = ''https://api.countdownapi.com/request'',
          req_params = [(''api_key'', ''demo''), (''type'', ''search''),
                        (''ebay_domain'', ''ebay.com''), (''search_term'', ''memory cards'')]\<rparr>],
        Inr (PyStr ''{}''))"
  using simple_api_request_shape [of "\<lambda>url params. Inr ''{}''" "\<lambda>body. Inr body" "\<lambda>j. j"
      "''demo''" "''memory cards''"]
  by (simp add: prod_eq_iff)

text \<open>
  The errors of the tools. In the tool without a description the request is sent before
  the \<open>try\<close>, so what it raises leaves \<open>_run\<close>; a body that does not decode is caught,
  and the exception object itself is returned. The tool over a description builds its
  chain before the \<open>try\<close> and returns the exception object of a failed run.
\<close>

lemma simple_tool_get_raises:
  "requests_get ''https://api.countdownapi.com/request'' (simple_api_params api_key q) = Inl e
   \<Longrightarrow> snd (MySimpleAPISearch_run requests_get response_json json_dumps api_key q) = Inl e"
  by (simp add: MySimpleAPISearch_run_def Let_def)

lemma simple_tool_json_raises:
  "requests_get ''https://api.countdownapi.com/request'' (simple_api_params api_key q) = Inr r
   \<Longrightarrow> response_json r = Inl e \<Longrightarrow> is_Exception e
   \<Longrightarrow> snd (MySimpleAPISearch_run requests_get response_json json_dumps api_key q)
         = Inr (PyExcObj e)"
  by (simp add: MySimpleAPISearch_run_def Let_def)

lemma api_tool_run_raises:
  "from_llm_and_api_docs (tool_llm self) (tool_api_spec self) (tool_headers self)
      (tool_verbose self) (tool_limit_to_domains self) = Inr chain
   \<Longrightarrow> chain_run chain q = (sent, Inl e) \<Longrightarrow> is_Exception e
   \<Longrightarrow> MyAPISearch_run from_llm_and_api_docs chain_run self q = (sent, Inr (PyExcObj e))"
  by (simp add: MyAPISearch_run_def)

lemma api_tool_construction_raises:
  "from_llm_and_api_docs (tool_llm self) (tool_api_spec self) (tool_headers self)
      (tool_verbose self) (tool_limit_to_domains self) = Inl e
   \<Longrightarrow> MyAPISearch_run from_llm_and_api_docs chain_run self q = ([], Inl e)"
  by (simp add: MyAPISearch_run_def)

text \<open>
  C2, at three failing inputs. The claim is that \<open>_run\<close> always returns plain text and
  lets no exception out. When the endpoint answers with a body that is not JSON, the
  tool without a description returns the \<open>JSONDecodeError\<close> object, which is no text;
  when the connection fails, the \<open>ConnectionError\<close> leaves \<open>_run\<close>; when the chain's
  run is throttled, the tool over a description returns the \<open>RateLimitError\<close> object.
\<close>

theorem tool_result_not_text:
  "snd (MySimpleAPISearch_run (\<lambda>url params. Inr ''<html>502 Bad Gateway</html>'')
          (\<lambda>body. Inl (PyExc ''JSONDecodeError'' ''Expecting value: line 1 column 1 (char 0)''))
          (\<lambda>j. j) ''demo'' ''memory cards'')
     = Inr (PyExcObj (PyExc ''JSONDecodeError'' ''Expecting value: line 1 column 1 (char 0)''))
   \<and> \<not> is_text (PyExcObj (PyExc ''JSONDecodeError'' ''Expecting value: line 1 column 1 (char 0)''))
   \<and> snd (MySimpleAPISearch_run
            (\<lambda>url params. Inl (PyExc ''ConnectionError'' ''Max retries exceeded with url''))
            (\<lambda>body. Inr body) (\<lambda>j. j) ''demo'' ''memory cards'')
     = Inl (PyExc ''ConnectionError'' ''Max retries exceeded with url'')
   \<and> snd (MyAPISearch_run (\<lambda>llm docs headers verbose domains. Inr domains)
            (\<lambda>chain query. ([], Inl (PyExc ''RateLimitError'' ''Requests are throttled'')))
            \<lparr>tool_llm = ''gpt-35-turbo-16k'', tool_api_spec = ''openapi'', tool_headers = [],
             tool_limit_to_domains = [''https://disease.sh/''], tool_verbose = False\<rparr>
            ''covid tests in Argentina'')
     = Inr (PyExcObj (PyExc ''RateLimitError'' ''Requests are throttled''))"
  by (simp add: MySimpleAPISearch_run_def MyAPISearch_run_def Let_def is_Exception_def is_text_def)

subsection \<open>The allow-list\<close>

lemma api_chain_rejects:
  assumes "complete (chain_llm chain) (url_prompt (chain_llm chain) (chain_api_docs chain) q)
             = Inr api_url"
    and "url_host api_url \<notin> set (map url_host (chain_limit_to_domains chain))"
  shows "api_chain_run execute chain q =
           ([], Inl (PyExc ''DomainNotAllowed'' (api_url @ '' is not in the allowed domains'')))"
  using assms by (simp add: api_chain_run_def Let_def)

text \<open>
  With the chain of the specification, a request to a host outside the allow-list is
  never sent, and \<open>_run\<close> returns the DomainNotAllowed exception as an object.
\<close>

lemma spec_guided_rejects:
  assumes "complete (tool_llm self) (url_prompt (tool_llm self) (tool_api_spec self) q)
             = Inr api_url"
    and "url_host api_url \<notin> set (map url_host (tool_limit_to_domains self))"
  shows "spec_guided_run execute self q =
           ([], Inr (PyExcObj (PyExc ''DomainNotAllowed''
                                (api_url @ '' is not in the allowed domains''))))"
  using assms
  by (simp add: spec_guided_run_def MyAPISearch_run_def api_chain_from_llm_and_api_docs_def
      api_chain_run_def Let_def is_Exception_def)

text \<open>
  C4, at the input of the specification: the allow-list is \<open>["https://x.test/"]\<close> and
  the synthesized request goes to \<open>https://y.test/...\<close>. The request is rejected before
  it is sent (the log of requests is empty), but what \<open>_run\<close> returns is the
  DomainNotAllowed exception object, not a text.
\<close>

theorem domain_rejection_not_text:
  "spec_guided_run (\<lambda>request. Inr ''{}'')
      \<lparr>tool_llm = \<lparr>complete = (\<lambda>prompt. Inr ''https://y.test/v3/covid-19/all''),
                   url_prompt = (\<lambda>docs question. docs @ question),
                   answer_prompt = (\<lambda>docs question url response. response)\<rparr>,
       tool_api_spec = ''openapi'', tool_headers = [],
       tool_limit_to_domains = [''https://x.test/''], tool_verbose = False\<rparr>
      ''covid cases''
   = ([], Inr (PyExcObj (PyExc ''DomainNotAllowed''
                 ''https://y.test/v3/covid-19/all is not in the allowed domains'')))
   \<and> \<not> is_text (PyExcObj (PyExc ''DomainNotAllowed''
                 ''https://y.test/v3/covid-19/all is not in the allowed domains''))"
proof -
  have host: "url_host ''https://y.test/v3/covid-19/all'' = ''y.test''"
    "url_host ''https://x.test/'' = ''x.test''"
    by code_simp+
  show ?thesis
    by (simp add: spec_guided_run_def MyAPISearch_run_def api_chain_from_llm_and_api_docs_def
      api_chain_run_def Let_def is_Exception_def is_text_def host)
qed

section \<open>The reducer\<close>

lemma reduce_parameter_idem: "reduce_parameter (reduce_parameter p) = reduce_parameter p"
  by (simp add: reduce_parameter_def)

lemma reduce_operation_idem:
  "reduce_operation (reduce_operation operation) = reduce_operation operation"
  by (simp add: reduce_operation_def reduce_parameter_idem)

text \<open>
  C5. Reducing a reduced description changes nothing: for every description \<open>D\<close>,
  reducing twice gives what reducing once gives (the reduced description when \<open>D\<close> is
  valid, the same MalformedSpec when it is not).
\<close>

theorem reduce_idempotent:
  "reduce_twice D = reduce_openapi_spec D"
  by (auto simp: reduce_twice_def reduce_openapi_spec_def reduce_operation_idem
      split: api_document.splits option.splits)

text \<open>
  The endpoint of the specification's scenario, with a description text and no summary,
  a parameter carrying a schema and a response: the first reduction moves the description
  into the summary and strips schema and response, the second leaves it as it is.
\<close>

theorem reduce_idempotent_witness:
  "reduce_twice
     (Description (Some
        [\<lparr>op_method = ''GET'', op_path = ''/v3/covid-19/countries/{country}'',
          op_summary = None, op_description = Some ''Get COVID-19 totals for a country'',
          op_parameters =
            Some [\<lparr>param_name = ''country'', param_location = InPath, param_required = True,
                   param_type = ''string'', param_schema = Some ''{type: string}'',
                   param_example = Some ''Argentina''\<rparr>],
          op_response = Some ''{cases: number, tests: number}''\<rparr>]))
   = Inr (Description (Some
        [\<lparr>op_method = ''GET'', op_path = ''/v3/covid-19/countries/{country}'',
          op_summary = Some ''Get COVID-19 totals for a country'', op_description = None,
          op_parameters =
            Some [\<lparr>param_name = ''country'', param_location = InPath, param_required = True,
                   param_type = ''string'', param_schema = None, param_example = None\<rparr>],
          op_response = None\<rparr>]))"
  using reduce_idempotent [of "Description (Some
        [\<lparr>op_method = ''GET'', op_path = ''/v3/covid-19/countries/{country}'',
          op_summary = None, op_description = Some ''Get COVID-19 totals for a country'',
          op_parameters =
            Some [\<lparr>param_name = ''country'', param_location = InPath, param_required = True,
                   param_type = ''string'', param_schema = Some ''{type: string}'',
                   param_example = Some ''Argentina''\<rparr>],
          op_response = Some ''{cases: number, tests: number}''\<rparr>])"]
  by (simp add: reduce_openapi_spec_def reduce_operation_def reduce_parameter_def)

text \<open>
  C8. Reducing a document that has no operation collection (the top-level key is
  missing) returns a MalformedSpec result, which carries a textual explanation; the
  reducer is a total function, so there is no input on which it fails to return.
\<close>

theorem reduce_malformed:
  "reduce_openapi_spec (Description None)
     = Inl (MalformedSpec ''the API description has no operations'')
   \<and> explanation (MalformedSpec ''the API description has no operations'')
     = ''the API description has no operations''"
  by (simp add: reduce_openapi_spec_def)

end
